theory Spec2Isabelle
  imports Complex_Main "HOL-Library.AList"
begin

section \<open>The ledger and settlement engine of SplitJourney\<close>

text \<open>
  The development embeds the expense engine of \<^verbatim>\<open>logic.py\<close>: the split allocation of
  \<^verbatim>\<open>create_expense\<close> and \<^verbatim>\<open>update_expense\<close>, the balance aggregation of
  \<^verbatim>\<open>calculate_member_balances\<close>, the greedy \<^verbatim>\<open>simplify_debts\<close> and the budget
  report of \<^verbatim>\<open>get_budget_status\<close>.

  Conventions of the embedding.
  \<^item> Money is a Python \<^verbatim>\<open>float\<close> in the source. It is modelled by the rationals
    (\<^typ>\<open>rat\<close>): every sum, quotient and comparison is exact. Binary rounding error
    of the float arithmetic is outside the model. Where the outcome of a comparison in the
    source can turn on that error (the tests against one cent in \<^verbatim>\<open>simplify_debts\<close>),
    the statement that depends on it carries a hypothesis that keeps to the runs on which
    the exact and the floating-point comparison agree.
  \<^item> A Python \<^verbatim>\<open>dict\<close> is an association list with pairwise distinct keys, in
    insertion order (the order of \<^verbatim>\<open>dict.items()\<close>). Assigning to a present key
    keeps its position, which is what \<^const>\<open>AList.update\<close> does.
  \<^item> The database session is a record of the five tables the engine reads and
    writes, each a list of rows in storage order. A query
    \<^verbatim>\<open>db.query(T).filter(p).all()\<close> is \<^const>\<open>filter\<close>, and \<^verbatim>\<open>.first()\<close> is
    \<^const>\<open>find\<close>. Date columns play no part in the engine and are left out.
\<close>

subsection \<open>Rows and tables (\<^verbatim>\<open>models.py\<close>)\<close>

record group_row =
  g_id :: int
  g_name :: string
  g_budget_amount :: "rat option"

record group_member =
  m_id :: int
  m_group_id :: int
  m_member_name :: string

record expense =
  e_id :: int
  e_group_id :: int
  e_description :: string
  e_amount :: rat
  e_payer_member_id :: int

record expense_split =
  s_expense_id :: int
  s_member_id :: int
  s_amount_owed :: rat

record settlement =
  st_group_id :: int
  st_payer_member_id :: int
  st_receiver_member_id :: int
  st_amount :: rat

record db =
  groups :: "group_row list"
  group_members :: "group_member list"
  expenses :: "expense list"
  expense_splits :: "expense_split list"
  settlements :: "settlement list"

text \<open>\<^verbatim>\<open>db.query(Group).filter(Group.id == group_id).first()\<close>\<close>

definition get_group :: "db \<Rightarrow> int \<Rightarrow> group_row option" where
  "get_group d group_id = find (\<lambda>g. g_id g = group_id) (groups d)"

text \<open>The relationship \<^verbatim>\<open>group.members\<close>: the member rows that point to the group.\<close>

definition members_of :: "db \<Rightarrow> group_row \<Rightarrow> group_member list" where
  "members_of d g = filter (\<lambda>m. m_group_id m = g_id g) (group_members d)"

text \<open>The relationship \<^verbatim>\<open>exp.splits\<close>: the split rows that point to the expense.\<close>

definition splits_of :: "db \<Rightarrow> expense \<Rightarrow> expense_split list" where
  "splits_of d e = filter (\<lambda>s. s_expense_id s = e_id e) (expense_splits d)"

definition expenses_of_group :: "db \<Rightarrow> int \<Rightarrow> expense list" where
  "expenses_of_group d group_id = filter (\<lambda>e. e_group_id e = group_id) (expenses d)"

definition settlements_of_group :: "db \<Rightarrow> int \<Rightarrow> settlement list" where
  "settlements_of_group d group_id = filter (\<lambda>s. st_group_id s = group_id) (settlements d)"

subsection \<open>Dictionaries of balances\<close>

type_synonym balances = "(int \<times> rat) list"

text \<open>
  \<^verbatim>\<open>if k in balances: balances[k] += v\<close>: a key that is absent is skipped, a key that
  is present keeps its place.
\<close>

definition add_if_present :: "int \<Rightarrow> rat \<Rightarrow> balances \<Rightarrow> balances" where
  "add_if_present k v b =
     (case map_of b k of None \<Rightarrow> b | Some x \<Rightarrow> AList.update k (x + v) b)"

text \<open>The body of the settlement loop: credit the payer, then debit the receiver.\<close>

definition apply_settlement :: "int \<Rightarrow> int \<Rightarrow> rat \<Rightarrow> balances \<Rightarrow> balances" where
  "apply_settlement payer receiver amount b =
     add_if_present receiver (- amount) (add_if_present payer amount b)"

subsection \<open>\<^verbatim>\<open>calculate_member_balances\<close>\<close>

definition calculate_member_balances :: "db \<Rightarrow> int \<Rightarrow> balances" where
  "calculate_member_balances d group_id =
     (case get_group d group_id of
        None \<Rightarrow> []
      | Some grp \<Rightarrow>
          let b0 = fold (\<lambda>m b. AList.update (m_id m) 0 b) (members_of d grp) [];
              exps = expenses_of_group d group_id;
              b1 = fold (\<lambda>e b. add_if_present (e_payer_member_id e) (e_amount e) b) exps b0;
              b2 = fold (\<lambda>e b.
                     fold (\<lambda>split b'. add_if_present (s_member_id split) (- s_amount_owed split) b')
                       (splits_of d e) b) exps b1;
              b3 = fold (\<lambda>s b.
                     apply_settlement (st_payer_member_id s) (st_receiver_member_id s) (st_amount s) b)
                     (settlements_of_group d group_id) b2
          in b3)"

subsection \<open>Split inputs and errors\<close>

text \<open>
  \<^verbatim>\<open>split_inputs\<close> maps a member id to a checkbox value (\<^verbatim>\<open>True\<close>/\<^verbatim>\<open>False\<close>) for
  the Equal policy and to a number for the other policies. Python reads either kind through
  truthiness and through \<^verbatim>\<open>float(...)\<close>.
\<close>

datatype pyval = PyBool bool | PyNum rat

fun truthy :: "pyval \<Rightarrow> bool" where
  "truthy (PyBool b) = b"
| "truthy (PyNum x) = (x \<noteq> 0)"

fun py_float :: "pyval \<Rightarrow> rat" where
  "py_float (PyBool b) = (if b then 1 else 0)"
| "py_float (PyNum x) = x"

type_synonym split_inputs = "(int \<times> pyval) list"

text \<open>\<^verbatim>\<open>split_inputs.get(k, default)\<close>\<close>

definition dict_get :: "split_inputs \<Rightarrow> int \<Rightarrow> pyval \<Rightarrow> pyval" where
  "dict_get si k dflt = (case map_of si k of None \<Rightarrow> dflt | Some v \<Rightarrow> v)"

text \<open>
  The exceptions the engine can raise: \<^verbatim>\<open>group.members\<close> on a group that is
  \<^verbatim>\<open>None\<close>, the explicit \<^verbatim>\<open>ValueError("Expense not found")\<close>, and a float division
  by zero.
\<close>

datatype error = AttributeError | ValueError | ZeroDivisionError

definition py_div :: "rat \<Rightarrow> rat \<Rightarrow> error + rat" where
  "py_div a b = (if b = 0 then Inl ZeroDivisionError else Inr (a / b))"

subsection \<open>The split allocation of \<^verbatim>\<open>create_expense\<close> and \<^verbatim>\<open>update_expense\<close>\<close>

text \<open>
  The \<^verbatim>\<open>if split_type == ...\<close> chain that fills \<^verbatim>\<open>splits\<close> (lines 79--142 of
  \<^verbatim>\<open>create_expense\<close>, repeated as lines 261--312 of \<^verbatim>\<open>update_expense\<close>). A split type
  that is none of the four names leaves \<^verbatim>\<open>splits\<close> empty.
\<close>

definition mk_split :: "int \<Rightarrow> group_member \<Rightarrow> rat \<Rightarrow> expense_split" where
  "mk_split expense_id member owed =
     \<lparr>s_expense_id = expense_id, s_member_id = m_id member, s_amount_owed = owed\<rparr>"

text \<open>\<^verbatim>\<open>split_inputs.get(member.id, False)\<close> read as a condition.\<close>

definition is_selected :: "split_inputs \<Rightarrow> group_member \<Rightarrow> bool" where
  "is_selected split_inputs member = truthy (dict_get split_inputs (m_id member) (PyBool False))"

definition selected_members :: "group_member list \<Rightarrow> split_inputs \<Rightarrow> group_member list" where
  "selected_members members split_inputs =
     (if split_inputs \<noteq> [] then filter (is_selected split_inputs) members else members)"

definition compute_splits ::
  "int \<Rightarrow> group_member list \<Rightarrow> rat \<Rightarrow> string \<Rightarrow> split_inputs \<Rightarrow> error + expense_split list" where
  "compute_splits expense_id members amount split_type split_inputs =
     (if split_type = ''Equal'' then
        let sel = selected_members members split_inputs;
            num_selected = length sel
        in if num_selected > 0 then
             (case py_div amount (of_nat num_selected) of
                Inl err \<Rightarrow> Inl err
              | Inr split_amount \<Rightarrow> Inr (map (\<lambda>member. mk_split expense_id member split_amount) sel))
           else Inr []
      else if split_type = ''Unequal'' then
        Inr (map (\<lambda>member.
               mk_split expense_id member (py_float (dict_get split_inputs (m_id member) (PyNum 0))))
             members)
      else if split_type = ''Percentage'' then
        Inr (map (\<lambda>member.
               mk_split expense_id member
                 ((py_float (dict_get split_inputs (m_id member) (PyNum 0)) / 100) * amount))
             members)
      else if split_type = ''Shares'' then
        let total_shares = sum_list (map (\<lambda>kv. py_float (snd kv)) split_inputs)
        in if total_shares > 0 then
             (case py_div amount total_shares of
                Inl err \<Rightarrow> Inl err
              | Inr cost_per_share \<Rightarrow>
                  Inr (map (\<lambda>member.
                         mk_split expense_id member
                           (py_float (dict_get split_inputs (m_id member) (PyNum 0)) * cost_per_share))
                       members))
           else Inr []
      else Inr [])"

text \<open>
  \<^verbatim>\<open>db.flush()\<close> gives the new expense row its primary key: one more than the largest
  key in the table.
\<close>

definition next_id :: "int list \<Rightarrow> int" where
  "next_id ids = fold max ids 0 + 1"

definition create_expense ::
  "db \<Rightarrow> int \<Rightarrow> int \<Rightarrow> string \<Rightarrow> rat \<Rightarrow> string \<Rightarrow> split_inputs \<Rightarrow> error + (db \<times> expense)" where
  "create_expense d group_id payer_member_id description amount split_type split_inputs =
     (let expense = \<lparr>e_id = next_id (map e_id (expenses d)), e_group_id = group_id,
                      e_description = description, e_amount = amount,
                      e_payer_member_id = payer_member_id\<rparr>
      in case get_group d group_id of
           None \<Rightarrow> Inl AttributeError
         | Some grp \<Rightarrow>
             (case compute_splits (e_id expense) (members_of d grp) amount split_type split_inputs of
                Inl err \<Rightarrow> Inl err
              | Inr splits \<Rightarrow>
                  Inr (d\<lparr>expenses := expenses d @ [expense],
                         expense_splits := expense_splits d @ splits\<rparr>, expense)))"

text \<open>Writing the changed fields back to the row that \<^verbatim>\<open>.first()\<close> returned.\<close>

fun replace_first :: "('a \<Rightarrow> bool) \<Rightarrow> 'a \<Rightarrow> 'a list \<Rightarrow> 'a list" where
  "replace_first P y [] = []"
| "replace_first P y (x # xs) = (if P x then y # xs else x # replace_first P y xs)"

definition update_expense ::
  "db \<Rightarrow> int \<Rightarrow> string \<Rightarrow> rat \<Rightarrow> int \<Rightarrow> string \<Rightarrow> split_inputs \<Rightarrow> error + (db \<times> expense)" where
  "update_expense d expense_id description amount payer_member_id split_type split_inputs =
     (case find (\<lambda>e. e_id e = expense_id) (expenses d) of
        None \<Rightarrow> Inl ValueError
      | Some old \<Rightarrow>
          let expense = old\<lparr>e_description := description, e_amount := amount,
                           e_payer_member_id := payer_member_id\<rparr>;
              kept = filter (\<lambda>s. s_expense_id s \<noteq> expense_id) (expense_splits d)
          in case get_group d (e_group_id expense) of
               None \<Rightarrow> Inl AttributeError
             | Some grp \<Rightarrow>
                 (case compute_splits (e_id expense) (members_of d grp) amount split_type
                         split_inputs of
                    Inl err \<Rightarrow> Inl err
                  | Inr splits \<Rightarrow>
                      Inr (d\<lparr>expenses := replace_first (\<lambda>e. e_id e = expense_id) expense (expenses d),
                             expense_splits := kept @ splits\<rparr>, expense)))"

subsection \<open>\<^verbatim>\<open>simplify_debts\<close>\<close>

text \<open>
  \<^verbatim>\<open>round(x, 2)\<close>: the nearest multiple of one hundredth, a tie going to the even
  multiple.
\<close>

definition round_half_even :: "rat \<Rightarrow> int" where
  "round_half_even y =
     (let f = \<lfloor>y\<rfloor>; r = y - of_int f
      in if r < 1 / 2 then f else if 1 / 2 < r then f + 1 else if even f then f else f + 1)"

definition py_round2 :: "rat \<Rightarrow> rat" where
  "py_round2 x = of_int (round_half_even (x * 100)) / 100"

text \<open>
  The first loop files every member under \<^verbatim>\<open>debtors\<close> or \<^verbatim>\<open>creditors\<close> by the rounded
  balance, in the order of the dictionary; a rounded balance within one cent of zero goes
  to neither list.
\<close>

definition rounded :: "balances \<Rightarrow> (int \<times> rat) list" where
  "rounded b = map (\<lambda>(m, amount). (m, py_round2 amount)) b"

definition debtors_of :: "balances \<Rightarrow> (int \<times> rat) list" where
  "debtors_of b = filter (\<lambda>x. snd x < - (1 / 100)) (rounded b)"

definition creditors_of :: "balances \<Rightarrow> (int \<times> rat) list" where
  "creditors_of b = filter (\<lambda>x. \<not> snd x < - (1 / 100) \<and> 1 / 100 < snd x) (rounded b)"

text \<open>
  The \<^verbatim>\<open>while\<close> loop. The two cursors \<^verbatim>\<open>i\<close> and \<^verbatim>\<open>j\<close> are the heads of the two
  lists: the head carries the running amount of the current debtor or creditor, and a
  cursor that moves on drops the head.
\<close>

function settle :: "(int \<times> rat) list \<Rightarrow> (int \<times> rat) list \<Rightarrow> (int \<times> int \<times> rat) list" where
  "settle [] creditors = []"
| "settle (x # debtors) [] = []"
| "settle ((d, da) # debtors) ((c, ca) # creditors) =
     (let amount = min \<bar>da\<bar> ca;
          da' = da + amount;
          ca' = ca - amount
      in (d, c, amount) #
         settle (if \<bar>da'\<bar> < 1 / 100 then debtors else (d, da') # debtors)
                (if ca' < 1 / 100 then creditors else (c, ca') # creditors))"
  by pat_completeness auto

text \<open>
  The loop ends on every input. A step that moves neither cursor is possible only from a
  head debtor with a positive amount below the head creditor's (a state that
  \<^verbatim>\<open>simplify_debts\<close> never builds); it doubles that amount and takes it off the
  creditor's, so the quotient of the two falls.
\<close>

lemma stuck_step:
  fixes da ca :: rat
  assumes "\<not> \<bar>da + min \<bar>da\<bar> ca\<bar> < 1 / 100" and "\<not> ca - min \<bar>da\<bar> ca < 1 / 100"
  shows "0 < da \<and> da < ca \<and> min \<bar>da\<bar> ca = da"
  using assms by (auto simp: min_def abs_if split: if_splits)

lemma ceiling_halving:
  fixes da ca :: rat
  assumes "0 < da" and "da < ca"
  shows "nat \<lceil>(ca - da) / (da + da)\<rceil> < nat \<lceil>ca / da\<rceil>"
proof -
  have t: "1 < ca / da" using assms by simp
  have "(ca - da) / (da + da) = (ca / da - 1) / 2"
    using assms by (simp add: field_simps)
  also have "\<dots> \<le> ca / da - 1"
  proof -
    define x where "x = ca / da"
    have "1 < x" using t by (simp add: x_def)
    then have "(x - 1) / 2 \<le> x - 1" by simp
    then show ?thesis by (simp only: x_def)
  qed
  finally have "\<lceil>(ca - da) / (da + da)\<rceil> \<le> \<lceil>ca / da - 1\<rceil>"
    by (rule ceiling_mono)
  also have "\<dots> = \<lceil>ca / da\<rceil> - 1" by simp
  finally have le: "\<lceil>(ca - da) / (da + da)\<rceil> \<le> \<lceil>ca / da\<rceil> - 1" .
  have "0 < \<lceil>ca / da\<rceil>" using t by (simp add: ceiling_less_iff less_ceiling_iff)
  with le show ?thesis by linarith
qed

definition slack :: "(int \<times> rat) list \<Rightarrow> (int \<times> rat) list \<Rightarrow> nat" where
  "slack ds cs =
     (case ds of [] \<Rightarrow> 0
      | x # _ \<Rightarrow> (case cs of [] \<Rightarrow> 0
          | y # _ \<Rightarrow> if 0 < snd x then nat \<lceil>snd y / snd x\<rceil> else 0))"

termination settle
proof (relation "inv_image (less_than <*lex*> less_than)
         (\<lambda>(ds, cs). (length ds + length cs, slack ds cs))", goal_cases)
  case 1
  show ?case by (intro wf_inv_image wf_lex_prod wf_less_than)
next
  case (2 d da debtors c ca creditors amount da' ca')
  show ?case
  proof (cases "\<bar>da'\<bar> < 1 / 100 \<or> ca' < 1 / 100")
    case True
    then show ?thesis by auto
  next
    case False
    then have a: "\<not> \<bar>da'\<bar> < 1 / 100" and b: "\<not> ca' < 1 / 100" by blast+
    have s: "0 < da \<and> da < ca \<and> min \<bar>da\<bar> ca = da"
      using stuck_step [of da ca] a b unfolding 2 by blast
    with ceiling_halving [of da ca] False 2 show ?thesis
      by (simp add: slack_def)
  qed
qed

text \<open>One round of the loop, written out.\<close>

lemma settle_step:
  "settle ((d, da) # debtors) ((c, ca) # creditors) =
     (d, c, min \<bar>da\<bar> ca) #
       settle (if \<bar>da + min \<bar>da\<bar> ca\<bar> < 1 / 100 then debtors
               else (d, da + min \<bar>da\<bar> ca) # debtors)
              (if ca - min \<bar>da\<bar> ca < 1 / 100 then creditors
               else (c, ca - min \<bar>da\<bar> ca) # creditors)"
  by (subst settle.simps(3)) (simp only: Let_def)

declare settle.simps(3) [simp del]

text \<open>
  \<^verbatim>\<open>list.sort\<close> is stable, and so is \<^const>\<open>sort_key\<close>. With \<^verbatim>\<open>reverse=True\<close> the
  order of the keys is reversed and equal keys still keep their order: a stable sort by the
  negated key.
\<close>

definition simplify_debts :: "balances \<Rightarrow> (int \<times> int \<times> rat) list" where
  "simplify_debts b =
     settle (sort_key snd (debtors_of b)) (sort_key (\<lambda>x. - snd x) (creditors_of b))"

text \<open>
  The amounts that the rounds of the loop leave with their debtor and their creditor
  (\<^verbatim>\<open>debtor['amount']\<close> and \<^verbatim>\<open>creditor['amount']\<close> after the two updates), in
  the order of the rounds. The recursion is that of \<^const>\<open>settle\<close>.
\<close>

function remainders :: "(int \<times> rat) list \<Rightarrow> (int \<times> rat) list \<Rightarrow> rat list" where
  "remainders [] creditors = []"
| "remainders (x # debtors) [] = []"
| "remainders ((d, da) # debtors) ((c, ca) # creditors) =
     (let amount = min \<bar>da\<bar> ca;
          da' = da + amount;
          ca' = ca - amount
      in da' # ca' #
         remainders (if \<bar>da'\<bar> < 1 / 100 then debtors else (d, da') # debtors)
                    (if ca' < 1 / 100 then creditors else (c, ca') # creditors))"
  by pat_completeness auto

termination remainders
proof (relation "inv_image (less_than <*lex*> less_than)
         (\<lambda>(ds, cs). (length ds + length cs, slack ds cs))", goal_cases)
  case 1
  show ?case by (intro wf_inv_image wf_lex_prod wf_less_than)
next
  case (2 d da debtors c ca creditors amount da' ca')
  show ?case
  proof (cases "\<bar>da'\<bar> < 1 / 100 \<or> ca' < 1 / 100")
    case True
    then show ?thesis by auto
  next
    case False
    then have a: "\<not> \<bar>da'\<bar> < 1 / 100" and b: "\<not> ca' < 1 / 100" by blast+
    have s: "0 < da \<and> da < ca \<and> min \<bar>da\<bar> ca = da"
      using stuck_step [of da ca] a b unfolding 2 by blast
    with ceiling_halving [of da ca] False 2 show ?thesis
      by (simp add: slack_def)
  qed
qed


declare remainders.simps(3) [simp del]

text \<open>
  The source makes the two tests \<^verbatim>\<open>abs(debtor['amount']) < 0.01\<close> and
  \<^verbatim>\<open>creditor['amount'] < 0.01\<close> in binary floating point, where a remainder of one
  cent is computed as a little less or a little more than \<^verbatim>\<open>0.01\<close>
  (\<^verbatim>\<open>-0.03 + 0.02\<close> is \<^verbatim>\<open>-0.009999999999999998\<close>), so that the test may drop a
  party that is still a cent short. On a remainder that is zero or at least two cents the
  floating-point test and the exact test agree. A run is clean when all its remainders are
  of that kind.
\<close>

definition clear_of_cent :: "rat \<Rightarrow> bool" where
  "clear_of_cent r = (r = 0 \<or> 1 / 50 \<le> \<bar>r\<bar>)"

definition clean_run :: "balances \<Rightarrow> bool" where
  "clean_run b =
     list_all clear_of_cent
       (remainders (sort_key snd (debtors_of b)) (sort_key (\<lambda>x. - snd x) (creditors_of b)))"


subsection \<open>\<^verbatim>\<open>get_budget_status\<close>\<close>

definition calculate_total_spent :: "db \<Rightarrow> int \<Rightarrow> rat" where
  "calculate_total_spent d group_id = sum_list (map e_amount (expenses_of_group d group_id))"

text \<open>
  The format \<^verbatim>\<open>{overage:.1f}\<close>: the number rounded to one decimal (a tie to the even
  digit), written with its sign, its integer digits, a point and one digit.
\<close>

definition digit_char :: "nat \<Rightarrow> char" where
  "digit_char n = ''0123456789'' ! (n mod 10)"

fun str_nat :: "nat \<Rightarrow> string" where
  "str_nat n = (if n < 10 then [digit_char n] else str_nat (n div 10) @ [digit_char n])"

definition format_1f :: "rat \<Rightarrow> string" where
  "format_1f x =
     (let tenths = nat (round_half_even (\<bar>x\<bar> * 10))
      in (if x < 0 then ''-'' else []) @ str_nat (tenths div 10) @ ''.'' @ [digit_char tenths])"

text \<open>
  The three alert strings. A Python string is modelled by its UTF-8 bytes: the heavy
  exclamation mark is \<^verbatim>\<open>E2 9D 97\<close> and the warning sign is \<^verbatim>\<open>E2 9A A0\<close>.
\<close>

definition exceeded_alert :: "rat \<Rightarrow> string" where
  "exceeded_alert overage =
     [CHR 0xE2, CHR 0x9D, CHR 0x97] @ '' Budget exceeded by '' @ format_1f overage @ ''%''"

definition nearing_alert :: string where
  "nearing_alert = [CHR 0xE2, CHR 0x9A, CHR 0xA0] @ '' 80% of budget used - nearing limit''"

definition half_alert :: string where
  "half_alert = [CHR 0xE2, CHR 0x9A, CHR 0xA0] @ '' 50% of budget used''"

record budget_status =
  total_spent :: rat
  budget_amount :: "rat option"
  percentage_used :: rat
  alerts :: "string list"

text \<open>
  \<^verbatim>\<open>if budget_amount and budget_amount > 0\<close>: \<^verbatim>\<open>None\<close> and \<^verbatim>\<open>0.0\<close> are both
  falsy.
\<close>

definition get_budget_status :: "db \<Rightarrow> int \<Rightarrow> budget_status" where
  "get_budget_status d group_id =
     (case get_group d group_id of
        None \<Rightarrow> \<lparr>total_spent = 0, budget_amount = None, percentage_used = 0, alerts = []\<rparr>
      | Some grp \<Rightarrow>
          let total = calculate_total_spent d group_id;
              budget = g_budget_amount grp
          in (case budget of
                None \<Rightarrow>
                  \<lparr>total_spent = total, budget_amount = budget, percentage_used = 0, alerts = []\<rparr>
              | Some amount \<Rightarrow>
                  if amount \<noteq> 0 \<and> amount > 0 then
                    let pct = (total / amount) * 100
                    in \<lparr>total_spent = total, budget_amount = budget, percentage_used = pct,
                        alerts =
                          (if pct \<ge> 100 then [exceeded_alert (pct - 100)]
                           else if pct \<ge> 80 then [nearing_alert]
                           else if pct \<ge> 50 then [half_alert]
                           else [])\<rparr>
                  else
                    \<lparr>total_spent = total, budget_amount = budget, percentage_used = 0,
                     alerts = []\<rparr>))"

text \<open>
  The balance of one member as the specification words it: everything the member paid for
  the group's expenses, less everything the member owes in their splits, plus what the
  member paid in settlements, less what the member received in settlements.
\<close>

definition spec_balance :: "db \<Rightarrow> int \<Rightarrow> int \<Rightarrow> rat" where
  "spec_balance d group_id k =
     (\<Sum>e\<leftarrow>expenses_of_group d group_id. if e_payer_member_id e = k then e_amount e else 0)
     - (\<Sum>e\<leftarrow>expenses_of_group d group_id.
          \<Sum>s\<leftarrow>splits_of d e. if s_member_id s = k then s_amount_owed s else 0)
     + (\<Sum>s\<leftarrow>settlements_of_group d group_id.
          if st_payer_member_id s = k then st_amount s else 0)
     - (\<Sum>s\<leftarrow>settlements_of_group d group_id.
          if st_receiver_member_id s = k then st_amount s else 0)"

subsection \<open>A sample database\<close>

text \<open>
  The group of \<^verbatim>\<open>test_flow.py\<close>: a group ``Trip'' of Alice and Bob, here with a budget
  of 1000 and before any expense.
\<close>

definition trip_group :: group_row where
  "trip_group = \<lparr>g_id = 1, g_name = ''Trip'', g_budget_amount = Some 1000\<rparr>"

definition trip_db :: db where
  "trip_db =
     \<lparr>groups = [trip_group],
      group_members =
        [\<lparr>m_id = 1, m_group_id = 1, m_member_name = ''Alice''\<rparr>,
         \<lparr>m_id = 2, m_group_id = 1, m_member_name = ''Bob''\<rparr>],
      expenses = [], expense_splits = [], settlements = []\<rparr>"

text \<open>
  The same group after the lunch of \<^verbatim>\<open>test_flow.py\<close> (200 paid by Alice, split
  equally) and after Bob has paid 40 back to Alice.
\<close>

definition lunch :: expense where
  "lunch = \<lparr>e_id = 1, e_group_id = 1, e_description = ''Lunch'', e_amount = 200,
            e_payer_member_id = 1\<rparr>"

definition lunch_db :: db where
  "lunch_db =
     trip_db\<lparr>expenses := [lunch],
             expense_splits :=
               [\<lparr>s_expense_id = 1, s_member_id = 1, s_amount_owed = 100\<rparr>,
                \<lparr>s_expense_id = 1, s_member_id = 2, s_amount_owed = 100\<rparr>],
             settlements :=
               [\<lparr>st_group_id = 1, st_payer_member_id = 2, st_receiver_member_id = 1,
                 st_amount = 40\<rparr>]\<rparr>"

section \<open>Properties\<close>

subsection \<open>A group that does not exist\<close>

text \<open>
  Claim C8. When no group row has the given id, \<^verbatim>\<open>calculate_member_balances\<close> returns the
  empty dictionary. The function has no error result at all: it is a total function into
  dictionaries, so no error is raised either.
\<close>

theorem calculate_member_balances_no_group:
  assumes "get_group d group_id = None"
  shows "calculate_member_balances d group_id = []"
  using assms by (simp add: calculate_member_balances_def)

theorem calculate_member_balances_no_group_witness:
  "get_group trip_db 7 = None \<and> calculate_member_balances trip_db 7 = []"
  using calculate_member_balances_no_group [of trip_db 7]
  by (simp add: get_group_def trip_db_def trip_group_def)

subsection \<open>The split allocation\<close>

lemma get_group_trip: "get_group trip_db 1 = Some trip_group"
  by (simp add: get_group_def trip_db_def trip_group_def)

lemma members_of_trip:
  "members_of trip_db trip_group =
     [\<lparr>m_id = 1, m_group_id = 1, m_member_name = ''Alice''\<rparr>,
      \<lparr>m_id = 2, m_group_id = 1, m_member_name = ''Bob''\<rparr>]"
  by (simp add: members_of_def trip_db_def trip_group_def)

lemma compute_splits_equal:
  "compute_splits eid members amount ''Equal'' si =
     Inr (map (\<lambda>m. mk_split eid m (amount / of_nat (length (selected_members members si))))
            (selected_members members si))"
  by (simp add: compute_splits_def py_div_def Let_def)

lemma compute_splits_shares:
  "compute_splits eid members amount ''Shares'' si =
     (if 0 < sum_list (map (\<lambda>kv. py_float (snd kv)) si)
      then Inr (map (\<lambda>m. mk_split eid m
              (py_float (dict_get si (m_id m) (PyNum 0))
                 * (amount / sum_list (map (\<lambda>kv. py_float (snd kv)) si)))) members)
      else Inr [])"
  by (simp add: compute_splits_def py_div_def Let_def)

lemma create_expense_stored:
  assumes "get_group d group_id = Some grp"
    and "compute_splits (next_id (map e_id (expenses d))) (members_of d grp) amount split_type
           split_inputs = Inr splits"
  shows "\<exists>d' e. create_expense d group_id payer description amount split_type split_inputs
             = Inr (d', e)
           \<and> e_id e = next_id (map e_id (expenses d))
           \<and> e_amount e = amount \<and> e_payer_member_id e = payer \<and> e_group_id e = group_id
           \<and> expenses d' = expenses d @ [e]
           \<and> expense_splits d' = expense_splits d @ splits"
  using assms by (simp add: create_expense_def Let_def)

lemma update_expense_stored:
  assumes "find (\<lambda>e. e_id e = expense_id) (expenses d) = Some old"
    and "get_group d (e_group_id old) = Some grp"
    and "compute_splits (e_id old) (members_of d grp) amount split_type split_inputs = Inr splits"
  shows "\<exists>d' e. update_expense d expense_id description amount payer split_type split_inputs
             = Inr (d', e)
           \<and> e_id e = e_id old \<and> e_amount e = amount \<and> e_payer_member_id e = payer
           \<and> expense_splits d'
               = filter (\<lambda>s. s_expense_id s \<noteq> expense_id) (expense_splits d) @ splits"
  using assms by (simp add: update_expense_def Let_def)

text \<open>
  Claim C3, as the code has it. With the Equal policy and a selection that is not empty and
  selects no member of the group, \<^verbatim>\<open>create_expense\<close> raises nothing: the guard
  \<^verbatim>\<open>if num_selected > 0\<close> skips the allocation, the expense row is stored and no split
  row is.
\<close>

theorem equal_none_selected_stores_no_split:
  assumes "get_group d group_id = Some grp"
    and "split_inputs \<noteq> []"
    and "list_all (\<lambda>m. \<not> is_selected split_inputs m) (members_of d grp)"
  shows "\<exists>d' e. create_expense d group_id payer description amount ''Equal'' split_inputs
             = Inr (d', e)
           \<and> expenses d' = expenses d @ [e]
           \<and> expense_splits d' = expense_splits d"
proof -
  from assms(3) have "filter (is_selected split_inputs) (members_of d grp) = []"
    by (simp add: list_all_iff filter_empty_conv)
  with assms(2) have "selected_members (members_of d grp) split_inputs = []"
    by (simp add: selected_members_def)
  then have "compute_splits (next_id (map e_id (expenses d))) (members_of d grp) amount ''Equal''
               split_inputs = Inr []"
    by (simp add: compute_splits_equal)
  from create_expense_stored [OF assms(1) this, of payer description]
  show ?thesis by auto
qed

theorem equal_none_selected_stores_no_split_witness:
  "get_group trip_db 1 = Some trip_group
   \<and> [(1, PyBool False), (2, PyBool False)] \<noteq> []
   \<and> list_all (\<lambda>m. \<not> is_selected [(1, PyBool False), (2, PyBool False)] m)
        (members_of trip_db trip_group)
   \<and> (\<exists>d' e. create_expense trip_db 1 1 ''Lunch'' 200 ''Equal''
                 [(1, PyBool False), (2, PyBool False)] = Inr (d', e)
           \<and> expenses d' = expenses trip_db @ [e]
           \<and> expense_splits d' = expense_splits trip_db)"
proof -
  have a: "[(1, PyBool False), (2, PyBool False)] \<noteq> ([] :: split_inputs)" by simp
  have b: "list_all (\<lambda>m. \<not> is_selected [(1, PyBool False), (2, PyBool False)] m)
        (members_of trip_db trip_group)"
    by (simp add: members_of_trip is_selected_def dict_get_def)
  from equal_none_selected_stores_no_split [OF get_group_trip a b, of 1 "''Lunch''" 200]
  show ?thesis using get_group_trip a b by blast
qed

text \<open>
  The claim as the specification words it fails: on the sample group, an Equal allocation
  whose selection marks both members unselected returns normally.
\<close>

theorem equal_none_selected_raises_counterexample:
  "\<not> isl (create_expense trip_db 1 1 ''Lunch'' 200 ''Equal''
             [(1, PyBool False), (2, PyBool False)])"
  by (simp add: create_expense_def get_group_trip members_of_trip compute_splits_equal
      selected_members_def is_selected_def dict_get_def Let_def)

text \<open>
  Claim C4. With the Equal policy, a selection that is not empty and \<open>n > 0\<close> selected
  members of the group, \<^verbatim>\<open>create_expense\<close> stores exactly \<open>n\<close> new split rows, each
  of \<open>amount / n\<close>: one for every selected member, in the order of the members, and none
  for a member that is not selected.
\<close>

theorem equal_split_amounts:
  assumes "get_group d group_id = Some grp"
    and "split_inputs \<noteq> []"
    and "n = length (filter (is_selected split_inputs) (members_of d grp))"
    and "0 < n"
  shows "\<exists>d' e splits.
           create_expense d group_id payer description amount ''Equal'' split_inputs = Inr (d', e)
         \<and> expense_splits d' = expense_splits d @ splits
         \<and> length splits = n
         \<and> map s_member_id splits = map m_id (filter (is_selected split_inputs) (members_of d grp))
         \<and> list_all (\<lambda>s. s_expense_id s = e_id e \<and> s_amount_owed s = amount / of_nat n) splits
         \<and> list_all (\<lambda>m. if is_selected split_inputs m
                           then m_id m \<in> s_member_id ` set splits
                           else m_id m \<notin> s_member_id ` set splits) (members_of d grp)"
proof -
  let ?sel = "filter (is_selected split_inputs) (members_of d grp)"
  let ?eid = "next_id (map e_id (expenses d))"
  let ?splits = "map (\<lambda>m. mk_split ?eid m (amount / of_nat n)) ?sel"
  have sel: "selected_members (members_of d grp) split_inputs = ?sel"
    using assms(2) by (simp add: selected_members_def)
  have cs: "compute_splits ?eid (members_of d grp) amount ''Equal'' split_inputs = Inr ?splits"
    by (simp add: compute_splits_equal sel assms(3))
  from create_expense_stored [OF assms(1) cs, of payer description]
  obtain d' e where ce:
    "create_expense d group_id payer description amount ''Equal'' split_inputs = Inr (d', e)"
    and eid: "e_id e = ?eid"
    and st: "expense_splits d' = expense_splits d @ ?splits"
    by blast
  have len: "length ?splits = n" by (simp add: assms(3))
  have ids: "map s_member_id ?splits = map m_id ?sel" by (simp add: mk_split_def)
  have each: "list_all (\<lambda>s. s_expense_id s = e_id e \<and> s_amount_owed s = amount / of_nat n) ?splits"
    by (simp add: list_all_iff mk_split_def eid)
  have img: "s_member_id ` set ?splits = m_id ` set ?sel"
    using ids by (metis list.set_map)
  have "is_selected split_inputs m \<longleftrightarrow> m_id m \<in> m_id ` set ?sel"
    if "m \<in> set (members_of d grp)" for m
  proof
    assume "is_selected split_inputs m"
    with that show "m_id m \<in> m_id ` set ?sel" by simp
  next
    assume "m_id m \<in> m_id ` set ?sel"
    then obtain m' where "is_selected split_inputs m'" and "m_id m' = m_id m" by auto
    then show "is_selected split_inputs m" by (simp add: is_selected_def)
  qed
  then have mem: "list_all (\<lambda>m. if is_selected split_inputs m
                           then m_id m \<in> s_member_id ` set ?splits
                           else m_id m \<notin> s_member_id ` set ?splits) (members_of d grp)"
    unfolding img by (simp add: list_all_iff)
  from ce st len ids each mem show ?thesis by blast
qed

theorem equal_split_amounts_witness:
  "get_group trip_db 1 = Some trip_group
   \<and> [(1, PyBool True), (2, PyBool False)] \<noteq> []
   \<and> (1::nat) = length (filter (is_selected [(1, PyBool True), (2, PyBool False)])
                    (members_of trip_db trip_group))
   \<and> (\<exists>d' e splits.
           create_expense trip_db 1 1 ''Taxi'' 50 ''Equal'' [(1, PyBool True), (2, PyBool False)]
             = Inr (d', e)
         \<and> expense_splits d' = expense_splits trip_db @ splits
         \<and> length splits = 1
         \<and> map s_member_id splits = [1]
         \<and> list_all (\<lambda>s. s_expense_id s = e_id e \<and> s_amount_owed s = 50) splits)"
proof -
  have a: "[(1, PyBool True), (2, PyBool False)] \<noteq> ([] :: split_inputs)" by simp
  have f: "filter (is_selected [(1, PyBool True), (2, PyBool False)])
             (members_of trip_db trip_group)
           = [\<lparr>m_id = 1, m_group_id = 1, m_member_name = ''Alice''\<rparr>]"
    by (simp add: members_of_trip is_selected_def dict_get_def)
  have b: "(1::nat) = length (filter (is_selected [(1, PyBool True), (2, PyBool False)])
                    (members_of trip_db trip_group))"
    by (simp add: f)
  from equal_split_amounts [OF get_group_trip a b, of 1 "''Taxi''" 50]
  show ?thesis using get_group_trip a b unfolding f by auto
qed

text \<open>
  Claim C9. With the Shares policy and share inputs whose total is zero, the guard
  \<^verbatim>\<open>if total_shares > 0\<close> skips the division: the allocation yields no split and no
  \<^verbatim>\<open>ZeroDivisionError\<close>, and \<^verbatim>\<open>create_expense\<close> on an existing group stores the
  expense row alone.
\<close>

theorem shares_zero_total_no_splits:
  assumes "get_group d group_id = Some grp"
    and "sum_list (map (\<lambda>kv. py_float (snd kv)) split_inputs) = 0"
  shows "compute_splits eid (members_of d grp) amount ''Shares'' split_inputs = Inr []
         \<and> (\<exists>d' e. create_expense d group_id payer description amount ''Shares'' split_inputs
                = Inr (d', e)
              \<and> expenses d' = expenses d @ [e]
              \<and> expense_splits d' = expense_splits d)"
proof -
  have z: "compute_splits k (members_of d grp) amount ''Shares'' split_inputs = Inr []" for k
    using assms(2) by (simp add: compute_splits_shares)
  from create_expense_stored [OF assms(1) z, of payer description] z [of eid]
  show ?thesis by auto
qed

theorem shares_zero_total_no_splits_witness:
  "get_group trip_db 1 = Some trip_group
   \<and> sum_list (map (\<lambda>kv. py_float (snd kv)) [(1::int, PyNum 0), (2, PyNum 0)]) = 0
   \<and> compute_splits 1 (members_of trip_db trip_group) 200 ''Shares'' [(1, PyNum 0), (2, PyNum 0)]
       = Inr []
   \<and> (\<exists>d' e. create_expense trip_db 1 1 ''Lunch'' 200 ''Shares'' [(1, PyNum 0), (2, PyNum 0)]
                = Inr (d', e)
              \<and> expenses d' = expenses trip_db @ [e]
              \<and> expense_splits d' = expense_splits trip_db)"
proof -
  have a: "sum_list (map (\<lambda>kv. py_float (snd kv)) [(1::int, PyNum 0), (2, PyNum 0)]) = 0"
    by simp
  from shares_zero_total_no_splits [OF get_group_trip a, of 1 200 1 "''Lunch''"]
  show ?thesis using get_group_trip a by blast
qed

text \<open>No input at all makes the allocation divide by zero.\<close>

lemma compute_splits_no_zero_division:
  "compute_splits eid members amount split_type split_inputs \<noteq> Inl ZeroDivisionError"
  by (auto simp: compute_splits_def py_div_def Let_def)

text \<open>
  Claim C10. With the Equal policy and an empty \<^verbatim>\<open>split_inputs\<close>, the branch
  \<^verbatim>\<open>selected_members = members\<close> is taken. On any existing group, \<^verbatim>\<open>create_expense\<close>
  stores one split of \<open>amount / memberCount\<close> for every member of the group; on any
  existing expense of an existing group, \<^verbatim>\<open>update_expense\<close> replaces the splits of the
  expense by the same allocation. Neither raises.
\<close>

theorem equal_empty_inputs_selects_all:
  "(get_group d group_id = Some grp \<longrightarrow>
      (\<exists>d' e. create_expense d group_id payer description amount ''Equal'' [] = Inr (d', e)
         \<and> expense_splits d' = expense_splits d @
              map (\<lambda>m. mk_split (e_id e) m (amount / of_nat (length (members_of d grp))))
                (members_of d grp)))
   \<and> (find (\<lambda>e. e_id e = expense_id) (expenses d) = Some old
        \<and> get_group d (e_group_id old) = Some grp' \<longrightarrow>
      (\<exists>d' e. update_expense d expense_id description amount payer ''Equal'' [] = Inr (d', e)
         \<and> expense_splits d' = filter (\<lambda>s. s_expense_id s \<noteq> expense_id) (expense_splits d) @
              map (\<lambda>m. mk_split (e_id e) m (amount / of_nat (length (members_of d grp'))))
                (members_of d grp')))"
proof (intro conjI impI)
  assume g: "get_group d group_id = Some grp"
  have "compute_splits k (members_of d grp) amount ''Equal'' [] =
          Inr (map (\<lambda>m. mk_split k m (amount / of_nat (length (members_of d grp))))
                 (members_of d grp))" for k
    by (simp add: compute_splits_equal selected_members_def)
  from create_expense_stored [OF g this, of payer description]
  show "\<exists>d' e. create_expense d group_id payer description amount ''Equal'' [] = Inr (d', e)
            \<and> expense_splits d' = expense_splits d @
                 map (\<lambda>m. mk_split (e_id e) m (amount / of_nat (length (members_of d grp))))
                   (members_of d grp)"
    by auto
next
  assume "find (\<lambda>e. e_id e = expense_id) (expenses d) = Some old
            \<and> get_group d (e_group_id old) = Some grp'"
  then have f: "find (\<lambda>e. e_id e = expense_id) (expenses d) = Some old"
    and g: "get_group d (e_group_id old) = Some grp'" by simp_all
  have "compute_splits k (members_of d grp') amount ''Equal'' [] =
          Inr (map (\<lambda>m. mk_split k m (amount / of_nat (length (members_of d grp'))))
                 (members_of d grp'))" for k
    by (simp add: compute_splits_equal selected_members_def)
  from update_expense_stored [OF f g this, of description payer]
  show "\<exists>d' e. update_expense d expense_id description amount payer ''Equal'' [] = Inr (d', e)
            \<and> expense_splits d' = filter (\<lambda>s. s_expense_id s \<noteq> expense_id) (expense_splits d) @
                 map (\<lambda>m. mk_split (e_id e) m (amount / of_nat (length (members_of d grp'))))
                   (members_of d grp')"
    by auto
qed

lemma get_group_lunch: "get_group lunch_db 1 = Some trip_group"
  by (simp add: get_group_def lunch_db_def trip_db_def trip_group_def)

lemma members_of_lunch:
  "members_of lunch_db trip_group =
     [\<lparr>m_id = 1, m_group_id = 1, m_member_name = ''Alice''\<rparr>,
      \<lparr>m_id = 2, m_group_id = 1, m_member_name = ''Bob''\<rparr>]"
  by (simp add: members_of_def lunch_db_def trip_db_def trip_group_def)

text \<open>
  The create half on the group before any expense, the call of \<^verbatim>\<open>test_flow.py\<close>; the
  update half on the group after the lunch.
\<close>

theorem equal_empty_inputs_selects_all_witness:
  "get_group trip_db 1 = Some trip_group
   \<and> expenses trip_db = []
   \<and> (\<exists>d' e. create_expense trip_db 1 1 ''Lunch'' 200 ''Equal'' [] = Inr (d', e)
         \<and> expense_splits d' =
              [\<lparr>s_expense_id = e_id e, s_member_id = 1, s_amount_owed = 100\<rparr>,
               \<lparr>s_expense_id = e_id e, s_member_id = 2, s_amount_owed = 100\<rparr>])
   \<and> find (\<lambda>e. e_id e = 1) (expenses lunch_db) = Some lunch
   \<and> get_group lunch_db (e_group_id lunch) = Some trip_group
   \<and> (\<exists>d' e. update_expense lunch_db 1 ''Dinner'' 300 2 ''Equal'' [] = Inr (d', e)
         \<and> expense_splits d' =
              [\<lparr>s_expense_id = e_id e, s_member_id = 1, s_amount_owed = 150\<rparr>,
               \<lparr>s_expense_id = e_id e, s_member_id = 2, s_amount_owed = 150\<rparr>])"
proof -
  have n: "expenses trip_db = []" "expense_splits trip_db = []"
    by (simp_all add: trip_db_def)
  have a: "find (\<lambda>e. e_id e = 1) (expenses lunch_db) = Some lunch"
    by (simp add: lunch_db_def lunch_def)
  have b: "get_group lunch_db (e_group_id lunch) = Some trip_group"
    by (simp add: lunch_def get_group_lunch)
  have c: "filter (\<lambda>s. s_expense_id s \<noteq> 1) (expense_splits lunch_db) = []"
    by (simp add: lunch_db_def)
  from equal_empty_inputs_selects_all
         [where d = trip_db and group_id = 1 and grp = trip_group and payer = 1
            and description = "''Lunch''" and amount = 200]
  have "\<exists>d' e. create_expense trip_db 1 1 ''Lunch'' 200 ''Equal'' [] = Inr (d', e)
         \<and> expense_splits d' =
              [\<lparr>s_expense_id = e_id e, s_member_id = 1, s_amount_owed = 100\<rparr>,
               \<lparr>s_expense_id = e_id e, s_member_id = 2, s_amount_owed = 100\<rparr>]"
    by (simp add: get_group_trip members_of_trip mk_split_def n)
  moreover
  from equal_empty_inputs_selects_all
         [where d = lunch_db and expense_id = 1 and old = lunch and grp' = trip_group
            and payer = 2 and description = "''Dinner''" and amount = 300]
  have "\<exists>d' e. update_expense lunch_db 1 ''Dinner'' 300 2 ''Equal'' [] = Inr (d', e)
         \<and> expense_splits d' =
              [\<lparr>s_expense_id = e_id e, s_member_id = 1, s_amount_owed = 150\<rparr>,
               \<lparr>s_expense_id = e_id e, s_member_id = 2, s_amount_owed = 150\<rparr>]"
    by (simp add: a b members_of_lunch mk_split_def c)
  ultimately show ?thesis using get_group_trip n(1) a b by blast
qed

subsection \<open>The budget report\<close>

text \<open>
  Claim C7. For an existing group, the report carries the total spent; without a budget, or
  with a budget that is not positive, the percentage is 0 and there is no alert; with a
  positive budget the percentage is \<open>spent / budget * 100\<close> and there is at most one
  alert: from 100 percent on the ``exceeded'' alert with the excess over 100, from 80 to
  below 100 the ``nearing limit'' alert, from 50 to below 80 the ``50% used'' alert, and
  none below 50.
\<close>

theorem budget_status_thresholds:
  assumes "get_group d group_id = Some grp"
    and "st = get_budget_status d group_id"
    and "spent = calculate_total_spent d group_id"
  shows "total_spent st = spent \<and> budget_amount st = g_budget_amount grp \<and>
         (case g_budget_amount grp of
            None \<Rightarrow> percentage_used st = 0 \<and> alerts st = []
          | Some b \<Rightarrow>
              (b \<le> 0 \<longrightarrow> percentage_used st = 0 \<and> alerts st = []) \<and>
              (0 < b \<longrightarrow>
                 percentage_used st = spent / b * 100 \<and>
                 length (alerts st) \<le> 1 \<and>
                 (100 \<le> spent / b * 100 \<longrightarrow>
                    alerts st = [exceeded_alert (spent / b * 100 - 100)]) \<and>
                 (80 \<le> spent / b * 100 \<and> spent / b * 100 < 100 \<longrightarrow>
                    alerts st = [nearing_alert]) \<and>
                 (50 \<le> spent / b * 100 \<and> spent / b * 100 < 80 \<longrightarrow>
                    alerts st = [half_alert]) \<and>
                 (spent / b * 100 < 50 \<longrightarrow> alerts st = [])))"
proof (cases "g_budget_amount grp")
  case None
  with assms show ?thesis by (simp add: get_budget_status_def Let_def)
next
  case (Some b)
  show ?thesis
  proof (cases "0 < b")
    case True
    with Some assms show ?thesis by (simp add: get_budget_status_def Let_def)
  next
    case False
    with Some assms show ?thesis by (simp add: get_budget_status_def Let_def)
  qed
qed

text \<open>The scenario of the specification: 850 spent of a budget of 1000.\<close>

definition spent_850_db :: db where
  "spent_850_db = lunch_db\<lparr>expenses := [lunch\<lparr>e_amount := 850\<rparr>]\<rparr>"

theorem budget_status_thresholds_witness:
  "get_group spent_850_db 1 = Some trip_group
   \<and> calculate_total_spent spent_850_db 1 = 850
   \<and> percentage_used (get_budget_status spent_850_db 1) = 85
   \<and> alerts (get_budget_status spent_850_db 1) = [nearing_alert]"
proof -
  have g: "get_group spent_850_db 1 = Some trip_group"
    by (simp add: get_group_def spent_850_db_def lunch_db_def trip_db_def trip_group_def)
  have t: "calculate_total_spent spent_850_db 1 = 850"
    by (simp add: calculate_total_spent_def expenses_of_group_def spent_850_db_def lunch_def)
  from budget_status_thresholds [OF g refl t [symmetric]]
  show ?thesis using g t by (simp add: trip_group_def)
qed

text \<open>The text of an ``exceeded'' alert: 1250 spent of 1000 is 25.0 percent over.\<close>

lemma exceeded_alert_text:
  "exceeded_alert 25 = [CHR 0xE2, CHR 0x9D, CHR 0x97] @ '' Budget exceeded by 25.0%''"
  by code_simp

subsection \<open>The balance aggregation\<close>

text \<open>
  The three loops of \<^verbatim>\<open>calculate_member_balances\<close> are one run of guarded additions.
  \<open>adjustments\<close> lists them in the order in which the loops make them.
\<close>

definition apply_adjustments :: "(int \<times> rat) list \<Rightarrow> balances \<Rightarrow> balances" where
  "apply_adjustments kvs b = fold (\<lambda>kv b'. add_if_present (fst kv) (snd kv) b') kvs b"

definition adjustments :: "db \<Rightarrow> int \<Rightarrow> (int \<times> rat) list" where
  "adjustments d group_id =
     map (\<lambda>e. (e_payer_member_id e, e_amount e)) (expenses_of_group d group_id)
     @ concat (map (\<lambda>e. map (\<lambda>s. (s_member_id s, - s_amount_owed s)) (splits_of d e))
         (expenses_of_group d group_id))
     @ concat (map (\<lambda>s. [(st_payer_member_id s, st_amount s),
                           (st_receiver_member_id s, - st_amount s)])
         (settlements_of_group d group_id))"

definition zero_balances :: "group_member list \<Rightarrow> balances" where
  "zero_balances members = fold (\<lambda>m b. AList.update (m_id m) 0 b) members []"

lemma apply_adjustments_append:
  "apply_adjustments (xs @ ys) b = apply_adjustments ys (apply_adjustments xs b)"
  by (simp add: apply_adjustments_def)

lemma apply_adjustments_map:
  "fold (\<lambda>x. add_if_present (k x) (v x)) xs = apply_adjustments (map (\<lambda>x. (k x, v x)) xs)"
  by (rule ext) (simp add: apply_adjustments_def fold_map comp_def)

lemma apply_adjustments_concat:
  "fold (\<lambda>x. apply_adjustments (f x)) xs = apply_adjustments (concat (map f xs))"
proof
  fix b
  show "fold (\<lambda>x. apply_adjustments (f x)) xs b = apply_adjustments (concat (map f xs)) b"
    by (induction xs arbitrary: b) (simp_all add: apply_adjustments_def)
qed

lemma apply_settlement_adjustments:
  "apply_settlement p r a = apply_adjustments [(p, a), (r, - a)]"
  by (rule ext) (simp add: apply_settlement_def apply_adjustments_def)

lemma calculate_member_balances_adjustments:
  assumes "get_group d group_id = Some grp"
  shows "calculate_member_balances d group_id =
           apply_adjustments (adjustments d group_id) (zero_balances (members_of d grp))"
  using assms
  by (simp add: calculate_member_balances_def Let_def adjustments_def zero_balances_def
      apply_adjustments_append apply_adjustments_map apply_adjustments_concat
      apply_settlement_adjustments)

text \<open>What a guarded addition does to the keys, to a value and to the sum of the values.\<close>

lemma keys_add_if_present: "map fst (add_if_present k v b) = map fst b"
proof (cases "map_of b k")
  case None
  then show ?thesis by (simp add: add_if_present_def)
next
  case (Some x)
  then have "(k, x) \<in> set b" by (rule map_of_SomeD)
  then have "k \<in> fst ` set b" by force
  with Some show ?thesis by (simp add: add_if_present_def update_keys)
qed

lemma map_of_add_if_present:
  "map_of (add_if_present k v b) k' =
     (if k' = k then map_option (\<lambda>x. x + v) (map_of b k) else map_of b k')"
  by (auto simp: add_if_present_def update_conv' split: option.splits)

lemma keys_apply_adjustments: "map fst (apply_adjustments kvs b) = map fst b"
  by (induction kvs arbitrary: b) (simp_all add: apply_adjustments_def keys_add_if_present)

lemma map_of_apply_adjustments:
  "map_of (apply_adjustments kvs b) k =
     map_option (\<lambda>x. x + sum_list (map snd (filter (\<lambda>kv. fst kv = k) kvs))) (map_of b k)"
proof (induction kvs arbitrary: b)
  case Nil
  show ?case by (simp add: apply_adjustments_def option.map_ident)
next
  case (Cons kv kvs)
  have "map_of (apply_adjustments (kv # kvs) b) k
          = map_of (apply_adjustments kvs (add_if_present (fst kv) (snd kv) b)) k"
    by (simp add: apply_adjustments_def)
  also have "\<dots> = map_option (\<lambda>x. x + sum_list (map snd (filter (\<lambda>kv. fst kv = k) kvs)))
                      (map_of (add_if_present (fst kv) (snd kv) b) k)"
    by (rule Cons.IH)
  also have "\<dots> = map_option (\<lambda>x. x + sum_list (map snd (filter (\<lambda>kv. fst kv = k) (kv # kvs))))
                      (map_of b k)"
    by (cases "map_of b k") (auto simp: map_of_add_if_present)
  finally show ?case .
qed

lemma keys_zero_balances_aux:
  "fst ` set (fold (\<lambda>m b. AList.update (m_id m) 0 b) ms b) = fst ` set b \<union> m_id ` set ms"
  by (induction ms arbitrary: b) (auto simp: dom_update)

lemma distinct_zero_balances_aux:
  "distinct (map fst b) \<Longrightarrow> distinct (map fst (fold (\<lambda>m b. AList.update (m_id m) 0 b) ms b))"
  by (induction ms arbitrary: b) (simp_all add: distinct_update)

lemma values_update_zero:
  fixes b :: balances
  shows "list_all (\<lambda>kv. snd kv = 0) b \<Longrightarrow> list_all (\<lambda>kv. snd kv = 0) (AList.update k 0 b)"
  by (induction b) auto

lemma values_zero_balances_aux:
  fixes b :: balances
  shows "list_all (\<lambda>kv. snd kv = 0) b \<Longrightarrow>
     list_all (\<lambda>kv. snd kv = 0) (fold (\<lambda>m b. AList.update (m_id m) 0 b) ms b)"
  by (induction ms arbitrary: b) (simp_all add: values_update_zero)

lemma keys_zero_balances: "fst ` set (zero_balances ms) = m_id ` set ms"
  using keys_zero_balances_aux [of ms "[]"] by (simp add: zero_balances_def)

lemma distinct_zero_balances: "distinct (map fst (zero_balances ms))"
  using distinct_zero_balances_aux [of "[]" ms] by (simp add: zero_balances_def)

lemma values_zero_balances: "list_all (\<lambda>kv. snd kv = 0) (zero_balances ms)"
  using values_zero_balances_aux [of "[]" ms] by (simp add: zero_balances_def)

lemma map_of_zero_balances:
  "map_of (zero_balances ms) k = (if k \<in> m_id ` set ms then Some 0 else None)"
proof (cases "map_of (zero_balances ms) k")
  case None
  then show ?thesis
    using keys_zero_balances [of ms] by (simp add: map_of_eq_None_iff)
next
  case (Some v)
  then have in_set: "(k, v) \<in> set (zero_balances ms)" by (rule map_of_SomeD)
  then have "v = 0" using values_zero_balances [of ms] by (auto simp: list_all_iff)
  moreover have "k \<in> m_id ` set ms"
    using in_set keys_zero_balances [of ms] by force
  ultimately show ?thesis using Some by simp
qed

text \<open>The total of the adjustments that name one key.\<close>

definition net :: "int \<Rightarrow> (int \<times> rat) list \<Rightarrow> rat" where
  "net k kvs = sum_list (map snd (filter (\<lambda>kv. fst kv = k) kvs))"

lemma net_append: "net k (xs @ ys) = net k xs + net k ys"
  by (simp add: net_def)

lemma net_map: "net k (map (\<lambda>x. (f x, g x)) xs) = (\<Sum>x\<leftarrow>xs. if f x = k then g x else 0)"
  by (induction xs) (simp_all add: net_def)

lemma net_concat: "net k (concat (map h xs)) = (\<Sum>x\<leftarrow>xs. net k (h x))"
  by (induction xs) (simp_all add: net_append, simp add: net_def)

lemma sum_list_if_neg:
  fixes g :: "'a \<Rightarrow> rat"
  shows "(\<Sum>x\<leftarrow>xs. if P x then - g x else 0) = - (\<Sum>x\<leftarrow>xs. if P x then g x else 0)"
  by (induction xs) simp_all

lemma sum_list_neg:
  fixes f :: "'a \<Rightarrow> rat"
  shows "(\<Sum>x\<leftarrow>xs. - f x) = - (\<Sum>x\<leftarrow>xs. f x)"
  by (induction xs) simp_all

lemma sum_list_diff:
  fixes f g :: "'a \<Rightarrow> rat"
  shows "(\<Sum>x\<leftarrow>xs. f x - g x) = (\<Sum>x\<leftarrow>xs. f x) - (\<Sum>x\<leftarrow>xs. g x)"
  by (induction xs) simp_all

lemma net_adjustments: "net k (adjustments d group_id) = spec_balance d group_id k"
proof -
  have 1: "net k (map (\<lambda>e. (e_payer_member_id e, e_amount e)) (expenses_of_group d group_id))
         = (\<Sum>e\<leftarrow>expenses_of_group d group_id. if e_payer_member_id e = k then e_amount e else 0)"
    by (rule net_map)
  have 2: "net k (concat (map (\<lambda>e. map (\<lambda>s. (s_member_id s, - s_amount_owed s)) (splits_of d e))
                 (expenses_of_group d group_id)))
         = - (\<Sum>e\<leftarrow>expenses_of_group d group_id.
               \<Sum>s\<leftarrow>splits_of d e. if s_member_id s = k then s_amount_owed s else 0)"
    by (simp add: net_concat net_map sum_list_if_neg sum_list_neg)
  have 3: "net k (concat (map (\<lambda>s. [(st_payer_member_id s, st_amount s),
                           (st_receiver_member_id s, - st_amount s)])
                 (settlements_of_group d group_id)))
         = (\<Sum>s\<leftarrow>settlements_of_group d group_id.
              if st_payer_member_id s = k then st_amount s else 0)
           - (\<Sum>s\<leftarrow>settlements_of_group d group_id.
              if st_receiver_member_id s = k then st_amount s else 0)"
  proof -
    have pair: "net k [(st_payer_member_id s, st_amount s), (st_receiver_member_id s, - st_amount s)]
            = (if st_payer_member_id s = k then st_amount s else 0)
              - (if st_receiver_member_id s = k then st_amount s else 0)" for s
      by (simp add: net_def)
    show ?thesis by (simp only: net_concat pair sum_list_diff)
  qed
  show ?thesis
    unfolding adjustments_def net_append 1 2 3 spec_balance_def by simp
qed

text \<open>
  Claim C2. For an existing group the result has exactly the ids of the group's current
  members as its keys, each once, and the value of a member is the balance the
  specification describes. An id that is no current member is no key of the result,
  whatever expenses, splits and settlements name it, and the function has no error result.
\<close>

theorem calculate_member_balances_spec:
  assumes "get_group d group_id = Some grp"
  shows "set (map fst (calculate_member_balances d group_id)) = m_id ` set (members_of d grp)
         \<and> distinct (map fst (calculate_member_balances d group_id))
         \<and> map_of (calculate_member_balances d group_id) k =
             (if k \<in> m_id ` set (members_of d grp) then Some (spec_balance d group_id k)
              else None)"
proof -
  note eq = calculate_member_balances_adjustments [OF assms]
  have keys: "map fst (calculate_member_balances d group_id)
                = map fst (zero_balances (members_of d grp))"
    by (simp add: eq keys_apply_adjustments)
  have val: "map_of (calculate_member_balances d group_id) k =
             (if k \<in> m_id ` set (members_of d grp) then Some (spec_balance d group_id k)
              else None)"
    using net_adjustments [of k d group_id]
    by (simp add: eq map_of_apply_adjustments map_of_zero_balances net_def)
  from keys val show ?thesis
    by (simp add: keys_zero_balances distinct_zero_balances)
qed

lemma lunch_fields:
  "e_id lunch = 1" "e_group_id lunch = 1" "e_amount lunch = 200" "e_payer_member_id lunch = 1"
  by (simp_all add: lunch_def)

lemma rows_of_lunch:
  "expenses_of_group lunch_db 1 = [lunch]"
  "splits_of lunch_db lunch =
     [\<lparr>s_expense_id = 1, s_member_id = 1, s_amount_owed = 100\<rparr>,
      \<lparr>s_expense_id = 1, s_member_id = 2, s_amount_owed = 100\<rparr>]"
  "settlements_of_group lunch_db 1 =
     [\<lparr>st_group_id = 1, st_payer_member_id = 2, st_receiver_member_id = 1, st_amount = 40\<rparr>]"
  by (simp_all add: expenses_of_group_def splits_of_def settlements_of_group_def lunch_db_def
      lunch_def)

lemma calculate_member_balances_lunch:
  "calculate_member_balances lunch_db 1 = [(1, 60), (2, - 60)]"
  by (simp add: calculate_member_balances_def get_group_lunch members_of_lunch rows_of_lunch
      lunch_fields add_if_present_def apply_settlement_def)

theorem calculate_member_balances_spec_witness:
  "get_group lunch_db 1 = Some trip_group
   \<and> set (map fst (calculate_member_balances lunch_db 1)) = {1, 2}
   \<and> distinct (map fst (calculate_member_balances lunch_db 1))
   \<and> map_of (calculate_member_balances lunch_db 1) 2 = Some (- 60)
   \<and> spec_balance lunch_db 1 2 = - 60
   \<and> map_of (calculate_member_balances lunch_db 1) 3 = None"
proof -
  have s: "spec_balance lunch_db 1 2 = - 60"
    by (simp add: spec_balance_def rows_of_lunch lunch_fields)
  from calculate_member_balances_spec [OF get_group_lunch, of 2]
       calculate_member_balances_spec [OF get_group_lunch, of 3]
  show ?thesis
    using get_group_lunch s by (simp add: members_of_lunch)
qed

text \<open>The sum of the values under a guarded addition to a key that is present.\<close>

lemma sum_update_present:
  fixes b :: balances
  assumes "distinct (map fst b)" and "map_of b k = Some x"
  shows "sum_list (map snd (AList.update k y b)) = sum_list (map snd b) - x + y"
  using assms
proof (induction b)
  case Nil
  then show ?case by simp
next
  case (Cons p b)
  show ?case
  proof (cases "fst p = k")
    case True
    with Cons.prems have "snd p = x" by (cases p) simp
    with True show ?thesis by (cases p) simp
  next
    case False
    with Cons.prems have "distinct (map fst b)" and "map_of b k = Some x"
      by (cases p; simp)+
    with Cons.IH have "sum_list (map snd (AList.update k y b)) = sum_list (map snd b) - x + y"
      by simp
    with False show ?thesis by (cases p) simp
  qed
qed

lemma sum_add_if_present:
  assumes "distinct (map fst b)" and "k \<in> fst ` set b"
  shows "sum_list (map snd (add_if_present k v b)) = sum_list (map snd b) + v"
proof -
  from assms(2) obtain x where x: "map_of b k = Some x"
    by (cases "map_of b k") (auto simp: map_of_eq_None_iff)
  with sum_update_present [OF assms(1) x, of "x + v"] show ?thesis
    by (simp add: add_if_present_def)
qed

lemma sum_apply_adjustments:
  assumes "distinct (map fst b)" and "list_all (\<lambda>kv. fst kv \<in> fst ` set b) kvs"
  shows "sum_list (map snd (apply_adjustments kvs b)) = sum_list (map snd b) + sum_list (map snd kvs)"
  using assms
proof (induction kvs arbitrary: b)
  case Nil
  then show ?case by (simp add: apply_adjustments_def)
next
  case (Cons kv kvs)
  let ?b = "add_if_present (fst kv) (snd kv) b"
  have keys: "map fst ?b = map fst b" by (rule keys_add_if_present)
  then have same: "fst ` set ?b = fst ` set b" by (metis list.set_map)
  have "sum_list (map snd (apply_adjustments kvs ?b)) = sum_list (map snd ?b) + sum_list (map snd kvs)"
    using Cons.prems by (intro Cons.IH) (simp_all add: keys same)
  moreover have "sum_list (map snd ?b) = sum_list (map snd b) + snd kv"
    using Cons.prems by (intro sum_add_if_present) simp_all
  ultimately show ?case by (simp add: apply_adjustments_def)
qed

lemma sum_zero_balances: "sum_list (map snd (zero_balances ms)) = 0"
proof -
  have "list_all (\<lambda>kv. snd kv = 0) b \<Longrightarrow> sum_list (map snd b) = 0" for b :: balances
    by (induction b) simp_all
  then show ?thesis using values_zero_balances [of ms] by blast
qed

lemma sum_adjustments:
  "sum_list (map snd (adjustments d group_id)) =
     (\<Sum>e\<leftarrow>expenses_of_group d group_id. e_amount e)
     - (\<Sum>e\<leftarrow>expenses_of_group d group_id. sum_list (map s_amount_owed (splits_of d e)))"
proof -
  have a: "sum_list (map snd (concat (map f xs))) = (\<Sum>x\<leftarrow>xs. sum_list (map snd (f x)))"
    for f :: "'a \<Rightarrow> (int \<times> rat) list" and xs
    by (induction xs) simp_all
  have b: "(\<Sum>s\<leftarrow>xs. - s_amount_owed s) = - sum_list (map s_amount_owed xs)" for xs
    by (induction xs) simp_all
  show ?thesis
    by (simp add: adjustments_def a b comp_def sum_list_neg)
qed

text \<open>
  Claim C5. In a group whose expense payers, split members and settlement parties are all
  current members, and where the splits of every expense add up to the amount of the
  expense, the balances add up to zero, so to zero within 0.01.
\<close>

theorem balances_sum_to_zero:
  assumes "get_group d group_id = Some grp"
    and "ids = m_id ` set (members_of d grp)"
    and "list_all (\<lambda>e. e_payer_member_id e \<in> ids) (expenses_of_group d group_id)"
    and "list_all (\<lambda>e. list_all (\<lambda>s. s_member_id s \<in> ids) (splits_of d e))
           (expenses_of_group d group_id)"
    and "list_all (\<lambda>s. st_payer_member_id s \<in> ids \<and> st_receiver_member_id s \<in> ids)
           (settlements_of_group d group_id)"
    and "list_all (\<lambda>e. sum_list (map s_amount_owed (splits_of d e)) = e_amount e)
           (expenses_of_group d group_id)"
  shows "sum_list (map snd (calculate_member_balances d group_id)) = 0
         \<and> \<bar>sum_list (map snd (calculate_member_balances d group_id))\<bar> \<le> 1 / 100"
proof -
  let ?b = "zero_balances (members_of d grp)"
  have keys: "fst ` set ?b = ids" by (simp add: keys_zero_balances assms(2))
  have known: "list_all (\<lambda>kv. fst kv \<in> fst ` set ?b) (adjustments d group_id)"
    unfolding keys adjustments_def
    using assms(3,4,5) by (auto simp: list_all_iff)
  have "(\<Sum>e\<leftarrow>expenses_of_group d group_id. sum_list (map s_amount_owed (splits_of d e)))
          = (\<Sum>e\<leftarrow>expenses_of_group d group_id. e_amount e)"
    using assms(6) by (intro arg_cong [where f = sum_list] map_cong) (auto simp: list_all_iff)
  then have "sum_list (map snd (adjustments d group_id)) = 0"
    by (simp add: sum_adjustments)
  with sum_apply_adjustments [OF distinct_zero_balances known]
  have "sum_list (map snd (calculate_member_balances d group_id)) = 0"
    by (simp add: calculate_member_balances_adjustments [OF assms(1)] sum_zero_balances)
  then show ?thesis by simp
qed

theorem balances_sum_to_zero_witness:
  "get_group lunch_db 1 = Some trip_group
   \<and> {1, 2} = m_id ` set (members_of lunch_db trip_group)
   \<and> list_all (\<lambda>e. e_payer_member_id e \<in> {1, 2}) (expenses_of_group lunch_db 1)
   \<and> list_all (\<lambda>e. list_all (\<lambda>s. s_member_id s \<in> {1, 2}) (splits_of lunch_db e))
        (expenses_of_group lunch_db 1)
   \<and> list_all (\<lambda>s. st_payer_member_id s \<in> {1, 2} \<and> st_receiver_member_id s \<in> {1, 2})
        (settlements_of_group lunch_db 1)
   \<and> list_all (\<lambda>e. sum_list (map s_amount_owed (splits_of lunch_db e)) = e_amount e)
        (expenses_of_group lunch_db 1)
   \<and> sum_list (map snd (calculate_member_balances lunch_db 1)) = 0
   \<and> \<bar>sum_list (map snd (calculate_member_balances lunch_db 1))\<bar> \<le> 1 / 100"
proof -
  have a: "{1, 2} = m_id ` set (members_of lunch_db trip_group)"
    by (auto simp: members_of_lunch)
  have b: "list_all (\<lambda>e. e_payer_member_id e \<in> {1, 2}) (expenses_of_group lunch_db 1)"
    by (simp add: rows_of_lunch lunch_fields)
  have c: "list_all (\<lambda>e. list_all (\<lambda>s. s_member_id s \<in> {1, 2}) (splits_of lunch_db e))
        (expenses_of_group lunch_db 1)"
    by (simp add: rows_of_lunch)
  have e: "list_all (\<lambda>s. st_payer_member_id s \<in> {1, 2} \<and> st_receiver_member_id s \<in> {1, 2})
        (settlements_of_group lunch_db 1)"
    by (simp add: rows_of_lunch)
  have f: "list_all (\<lambda>e. sum_list (map s_amount_owed (splits_of lunch_db e)) = e_amount e)
        (expenses_of_group lunch_db 1)"
    by (simp add: rows_of_lunch lunch_fields)
  from balances_sum_to_zero [OF get_group_lunch a b c e f]
  show ?thesis using get_group_lunch a b c e f by blast
qed

subsection \<open>The debt simplifier\<close>

text \<open>
  One round of the loop from a head debtor that owes (an amount that is not positive)
  moves at least one cursor, and a debtor that stays still owes.
\<close>

lemma settle_round:
  fixes da ca :: rat
  assumes "da \<le> 0"
  shows "\<bar>da + min \<bar>da\<bar> ca\<bar> < 1 / 100 \<or> ca - min \<bar>da\<bar> ca < 1 / 100"
    and "da + min \<bar>da\<bar> ca \<le> 0"
  using assms by (auto simp: min_def abs_if)

lemma length_settle:
  assumes "list_all (\<lambda>x. snd x \<le> 0) ds"
  shows "length (settle ds cs) \<le> length ds + length cs - 1"
  using assms
proof (induction ds cs rule: settle.induct)
  case (1 creditors)
  show ?case by simp
next
  case (2 x debtors)
  show ?case by simp
next
  case (3 d da debtors c ca creditors)
  define amount where "amount = min \<bar>da\<bar> ca"
  define ds' where "ds' = (if \<bar>da + amount\<bar> < 1 / 100 then debtors else (d, da + amount) # debtors)"
  define cs' where "cs' = (if ca - amount < 1 / 100 then creditors else (c, ca - amount) # creditors)"
  from "3.prems" have da: "da \<le> 0" and rest: "list_all (\<lambda>x. snd x \<le> 0) debtors" by simp_all
  have moved: "\<bar>da + amount\<bar> < 1 / 100 \<or> ca - amount < 1 / 100"
    and owes: "da + amount \<le> 0"
    using settle_round [OF da, of ca] by (simp_all add: amount_def)
  have inv: "list_all (\<lambda>x. snd x \<le> 0) ds'"
    using rest owes by (simp add: ds'_def)
  have "length (settle ds' cs') \<le> length ds' + length cs' - 1"
    unfolding ds'_def cs'_def
    by (rule "3.IH" [OF amount_def refl refl]) (use inv in \<open>simp add: ds'_def\<close>)
  moreover have "length ds' + length cs' \<le> length debtors + length creditors + 1"
    using moved by (auto simp: ds'_def cs'_def)
  moreover have "settle ((d, da) # debtors) ((c, ca) # creditors) = (d, c, amount) # settle ds' cs'"
    by (simp only: settle_step amount_def ds'_def cs'_def)
  ultimately show ?case by simp
qed

lemma debtors_owe: "list_all (\<lambda>x. snd x \<le> 0) (sort_key snd (debtors_of b))"
  by (auto simp: list_all_iff debtors_of_def)

text \<open>
  Claim C6, as the code has it. With at least one debtor or creditor the plan has at most
  \<open>debtorCount + creditorCount - 1\<close> transactions; with none the plan is empty (and the
  bound, which is \<open>-1\<close> then, does not hold).
\<close>

theorem simplify_debts_length:
  "(0 < length (debtors_of b) + length (creditors_of b) \<longrightarrow>
      int (length (simplify_debts b))
        \<le> int (length (debtors_of b)) + int (length (creditors_of b)) - 1)
   \<and> (length (debtors_of b) + length (creditors_of b) = 0 \<longrightarrow> simplify_debts b = [])"
proof -
  have le: "length (simplify_debts b) \<le> length (debtors_of b) + length (creditors_of b) - 1"
    using length_settle [OF debtors_owe, of b "sort_key (\<lambda>x. - snd x) (creditors_of b)"]
    by (simp add: simplify_debts_def)
  have "int (length (simplify_debts b))
          \<le> int (length (debtors_of b)) + int (length (creditors_of b)) - 1"
    if "0 < length (debtors_of b) + length (creditors_of b)"
    using le that by linarith
  moreover have "simplify_debts b = []"
    if "length (debtors_of b) + length (creditors_of b) = 0"
    using le that by simp
  ultimately show ?thesis by blast
qed

theorem simplify_debts_length_witness:
  "0 < length (debtors_of [(1, 60), (2, - 30), (3, - 30)])
         + length (creditors_of [(1, 60), (2, - 30), (3, - 30)])
   \<and> length (debtors_of [(1, 60), (2, - 30), (3, - 30)]) = 2
   \<and> length (creditors_of [(1, 60), (2, - 30), (3, - 30)]) = 1
   \<and> int (length (simplify_debts [(1, 60), (2, - 30), (3, - 30)])) \<le> 2 + 1 - 1"
proof -
  have d: "length (debtors_of [(1, 60), (2, - 30), (3, - 30)]) = 2" by code_simp
  have c: "length (creditors_of [(1, 60), (2, - 30), (3, - 30)]) = 1" by code_simp
  from simplify_debts_length [of "[(1, 60), (2, - 30), (3, - 30)]"]
  show ?thesis unfolding d c by simp
qed

text \<open>
  The bound as the specification words it fails where nobody owes and nobody is owed: for
  two settled members the plan is empty and the bound is \<open>0 + 0 - 1\<close>.
\<close>

theorem simplify_debts_length_counterexample:
  "\<not> int (length (simplify_debts [(1, 0), (2, 0)]))
       \<le> int (length (debtors_of [(1, 0), (2, 0)]))
         + int (length (creditors_of [(1, 0), (2, 0)])) - 1"
proof -
  have d: "debtors_of [(1, 0), (2, 0)] = []" by code_simp
  have c: "creditors_of [(1, 0), (2, 0)] = []" by code_simp
  show ?thesis by (simp add: simplify_debts_def d c)
qed


























text \<open>
  A run that is not clean: two members owe three cents each and three members are owed
  two cents each. The first round leaves its debtor one cent short, so the statement above
  does not speak of this plan.
\<close>

lemma one_cent_short_not_clean:
  "\<not> clean_run [(1, - (3 / 100)), (2, - (3 / 100)), (3, 1 / 50), (4, 1 / 50), (5, 1 / 50)]"
  by code_simp


end
